theory Spec2Isabelle
  imports Complex_Main "HOL-Library.Word"
begin

unbundle bit_operations_syntax

section \<open>JavaScript values\<close>

text \<open>
  A JavaScript string is a sequence of UTF-16 code units and \<open>.length\<close> counts them.
  \<open>js\<close> writes an ASCII literal as such a string; a code unit beyond ASCII is written
  as its number.
\<close>

type_synonym js_string = "16 word list"

type_synonym byte = "8 word"

definition js :: "string \<Rightarrow> js_string" where
  "js s = map of_char s"

text \<open>The exceptions the modelled code can raise.\<close>

datatype error = TypeError | RangeError | InvalidCharacterError | NotSupportedError

text \<open>Truthiness of a possibly absent string: \<open>null\<close>, \<open>undefined\<close> and \<open>''\<close> are falsy.\<close>

definition truthy :: "js_string option \<Rightarrow> bool" where
  "truthy v = (case v of None \<Rightarrow> False | Some s \<Rightarrow> s \<noteq> [])"

section \<open>lib/gemini: resolution of the API key\<close>

text \<open>
  The three places \<open>getGeminiKey\<close> reads: \<open>localStorage.getItem('gemini_api_key')\<close>,
  \<open>import.meta.env.VITE_API_KEY\<close> and \<open>process.env.API_KEY\<close>. Each is a string or
  absent (\<open>null\<close> or \<open>undefined\<close>).
\<close>

record key_env =
  localKey :: "js_string option"
  viteKey :: "js_string option"
  processKey :: "js_string option"

text \<open>The test \<open>k && k.length > 10\<close> the function applies to each candidate.\<close>

definition key_ok :: "js_string option \<Rightarrow> bool" where
  "key_ok k = (truthy k \<and> (case k of None \<Rightarrow> False | Some s \<Rightarrow> length s > 10))"

definition getGeminiKey :: "key_env \<Rightarrow> js_string option" where
  "getGeminiKey env =
     (if key_ok (localKey env) then localKey env
      else if key_ok (viteKey env) then viteKey env
      else if key_ok (processKey env) then processKey env
      else None)"

text \<open>
  The specification's reading of the resolution: the candidates in their priority order,
  and the first available one, or nothing. A candidate is available when it passes the
  function's own test.
\<close>

definition candidates :: "key_env \<Rightarrow> js_string option list" where
  "candidates env = [localKey env, viteKey env, processKey env]"

definition first_available :: "js_string option list \<Rightarrow> js_string option" where
  "first_available cs = (case filter key_ok cs of [] \<Rightarrow> None | c # _ \<Rightarrow> c)"

text \<open>A candidate that is missing, or present with at most ten code units.\<close>

definition absent_or_short :: "js_string option \<Rightarrow> bool" where
  "absent_or_short k = (case k of None \<Rightarrow> True | Some s \<Rightarrow> length s \<le> 10)"

text \<open>The environment in which every candidate of at most ten code units has been removed.\<close>

definition drop_short :: "js_string option \<Rightarrow> js_string option" where
  "drop_short k = (if absent_or_short k then None else k)"

definition without_short_keys :: "key_env \<Rightarrow> key_env" where
  "without_short_keys env =
     \<lparr>localKey = drop_short (localKey env),
      viteKey = drop_short (viteKey env),
      processKey = drop_short (processKey env)\<rparr>"

section \<open>The browser's base64 functions\<close>

text \<open>
  \<open>btoa\<close> and \<open>atob\<close> belong to the browser. They are modelled after the HTML Standard:
  \<open>btoa\<close> raises InvalidCharacterError on a code unit above 255 and otherwise writes
  three bytes as four characters of the base64 alphabet, padding with \<open>=\<close>; \<open>atob\<close> is
  the forgiving decoder, which drops ASCII whitespace, removes one or two trailing \<open>=\<close>
  when the length is a multiple of four, and raises InvalidCharacterError on a length
  that is 1 modulo 4 or on a character outside the alphabet.
\<close>

definition b64_char :: "nat \<Rightarrow> 16 word" where
  "b64_char v =
     (if v < 26 then of_nat (v + 65)
      else if v < 52 then of_nat (v + 71)
      else if v < 62 then of_nat (v - 4)
      else if v = 62 then 43
      else 47)"

definition b64_value :: "16 word \<Rightarrow> nat option" where
  "b64_value c =
     (let u = unat c in
      if 65 \<le> u \<and> u \<le> 90 then Some (u - 65)
      else if 97 \<le> u \<and> u \<le> 122 then Some (u - 71)
      else if 48 \<le> u \<and> u \<le> 57 then Some (u + 4)
      else if u = 43 then Some 62
      else if u = 47 then Some 63
      else None)"

fun sextets :: "nat list \<Rightarrow> nat list" where
  "sextets (a # b # c # xs) =
     [a div 4, (a mod 4) * 16 + b div 16, (b mod 16) * 4 + c div 64, c mod 64] @ sextets xs"
| "sextets [a, b] = [a div 4, (a mod 4) * 16 + b div 16, (b mod 16) * 4]"
| "sextets [a] = [a div 4, (a mod 4) * 16]"
| "sextets [] = []"

definition btoa :: "js_string \<Rightarrow> error + js_string" where
  "btoa s =
     (if list_ex (\<lambda>c. 255 < c) s then Inl InvalidCharacterError
      else Inr (map b64_char (sextets (map unat s)) @
                replicate ((3 - length s mod 3) mod 3) 61))"

definition ascii_whitespace :: "16 word \<Rightarrow> bool" where
  "ascii_whitespace c = (c = 9 \<or> c = 10 \<or> c = 12 \<or> c = 13 \<or> c = 32)"

definition strip_padding :: "js_string \<Rightarrow> js_string" where
  "strip_padding d =
     (if length d mod 4 = 0 \<and> d \<noteq> [] \<and> last d = 61
      then (if butlast d \<noteq> [] \<and> last (butlast d) = 61 then butlast (butlast d)
            else butlast d)
      else d)"

fun octets :: "nat list \<Rightarrow> nat list" where
  "octets (p # q # r # s # vs) =
     [p * 4 + q div 16, (q mod 16) * 16 + r div 4, (r mod 4) * 64 + s] @ octets vs"
| "octets [p, q, r] = [p * 4 + q div 16, (q mod 16) * 16 + r div 4]"
| "octets [p, q] = [p * 4 + q div 16]"
| "octets vs = []"

definition atob :: "js_string \<Rightarrow> error + js_string" where
  "atob s =
     (let d = strip_padding (filter (\<lambda>c. \<not> ascii_whitespace c) s) in
      if length d mod 4 = 1 then Inl InvalidCharacterError
      else (case those (map b64_value d) of
              None \<Rightarrow> Inl InvalidCharacterError
            | Some vs \<Rightarrow> Inr (map of_nat (octets vs))))"

section \<open>LiveChat: the audio helpers\<close>

text \<open>
  \<open>encode\<close> appends \<open>String.fromCharCode(bytes[i])\<close> for each byte and calls \<open>btoa\<close>;
  \<open>decode\<close> calls \<open>atob\<close> and stores \<open>charCodeAt(i)\<close> into a fresh \<open>Uint8Array\<close>, which keeps
  the low eight bits.
\<close>

definition encode :: "byte list \<Rightarrow> error + js_string" where
  "encode bytes = btoa (foldl (\<lambda>binary b. binary @ [ucast b]) [] bytes)"

definition decode :: "js_string \<Rightarrow> error + byte list" where
  "decode base64 =
     (case atob base64 of
        Inl e \<Rightarrow> Inl e
      | Inr binaryString \<Rightarrow>
          Inr (fold (\<lambda>i bytes. bytes[i := ucast (binaryString ! i)])
                 [0..<length binaryString] (replicate (length binaryString) 0)))"

text \<open>
  A store into an \<open>Int16Array\<close> converts the number with ToInt16: it is truncated towards
  zero and reduced modulo \<open>2 ^ 16\<close>. A float32 sample is a dyadic rational and its product
  with \<open>32768 = 2 ^ 15\<close> is exact in double precision, so samples are rationals here
  (NaN and the infinities, which a capture block does not hold, are left out).
\<close>

definition toInt16 :: "rat \<Rightarrow> 16 word" where
  "toInt16 v = word_of_int (if 0 \<le> v then \<lfloor>v\<rfloor> else \<lceil>v\<rceil>)"

text \<open>\<open>new Uint8Array(int16.buffer)\<close>: the two bytes of each element, low byte first.\<close>

definition int16_bytes :: "16 word \<Rightarrow> byte list" where
  "int16_bytes w = [ucast w, ucast (drop_bit 8 w)]"

record pcm_blob =
  blob_data :: js_string
  mimeType :: js_string

definition createBlob_int16 :: "rat list \<Rightarrow> 16 word list" where
  "createBlob_int16 data = map (\<lambda>x. toInt16 (x * 32768)) data"

definition createBlob :: "rat list \<Rightarrow> error + pcm_blob" where
  "createBlob data =
     (case encode (concat (map int16_bytes (createBlob_int16 data))) of
        Inl e \<Rightarrow> Inl e
      | Inr b \<Rightarrow> Inr \<lparr>blob_data = b, mimeType = js ''audio/pcm;rate=16000''\<rparr>)"

text \<open>
  \<open>decodeAudioData(data, ctx, sampleRate, 1)\<close>, with the single channel every call passes.
  \<open>new Int16Array(data.buffer)\<close> raises RangeError on an odd number of bytes, and
  \<open>ctx.createBuffer\<close> raises NotSupportedError for a buffer of no frames. The buffer's
  duration is its number of frames over its sample rate.
\<close>

fun int16_view :: "byte list \<Rightarrow> 16 word list" where
  "int16_view (lo # hi # bs) = (ucast lo OR push_bit 8 (ucast hi)) # int16_view bs"
| "int16_view bs = []"

record audio_buffer =
  sampleRate :: nat
  channelData :: "rat list"

definition duration :: "audio_buffer \<Rightarrow> rat" where
  "duration b = of_nat (length (channelData b)) / of_nat (sampleRate b)"

definition decodeAudioData :: "byte list \<Rightarrow> nat \<Rightarrow> error + audio_buffer" where
  "decodeAudioData data rate =
     (if odd (length data) then Inl RangeError
      else
        (let dataInt16 = int16_view data; frameCount = length dataInt16 in
         if frameCount = 0 then Inl NotSupportedError
         else Inr \<lparr>sampleRate = rate,
                   channelData = map (\<lambda>v. of_int (sint v) / 32768) dataInt16\<rparr>))"

section \<open>LiveChat: data and state\<close>

datatype role = User | Tutor

record message =
  role :: role
  msg_text :: js_string
  translation :: "js_string option"

datatype language =
  Ingles | Espanhol | Frances | Alemao | Portugues_Brasil | Japones | Italiano | Chines

record chat_session_log =
  log_id :: js_string
  log_date :: nat
  messages :: "message list"
  log_language :: language

text \<open>
  A playback node that has been started: the time it was started at and its buffer.
  The set \<open>sourcesRef\<close> holds nodes in insertion order and every node is a fresh object, so
  it is a list here.
\<close>

record source_node =
  startTime :: rat
  buffer :: audio_buffer

datatype context_state = Suspended | Running | Closed

text \<open>What the component does to the world outside its own state, in the order it does it.\<close>

datatype effect =
    Start source_node
  | Stop source_node
  | Close_session nat
  | Close_audio_in
  | Close_audio_out
  | Cancel_animation_frame nat
  | Alert js_string
  | On_action
  | Console_error

text \<open>
  The state cells of the component that the modelled functions read or write: the
  \<open>useState\<close> values and the \<open>useRef\<close> cells, under their names, and the log of effects.
  \<open>sessionPromiseRef\<close> holds the handle of the session, the two context cells the state of
  the \<open>AudioContext\<close> they point to; \<open>None\<close> is \<open>null\<close>.
\<close>

record live_chat =
  isActive :: bool
  isConnecting :: bool
  transcription :: "message list"
  pastSessions :: "chat_session_log list"
  viewingHistoryIdx :: "nat option"
  audioLevel :: rat
  currentInputRef :: js_string
  currentOutputRef :: js_string
  targetTransLang :: language
  isTranslatingIdx :: "nat option"
  sessionPromiseRef :: "nat option"
  audioContextInRef :: "context_state option"
  audioContextOutRef :: "context_state option"
  nextStartTimeRef :: rat
  sourcesRef :: "source_node list"
  analyzerRef :: bool
  animationFrameRef :: "nat option"
  effects :: "effect list"

section \<open>LiveChat: the message handler of the live session\<close>

text \<open>
  A \<open>LiveServerMessage\<close>, with the fields the handler reads. Every field is optional;
  an absent flag is falsy.
\<close>

record inline_data =
  b64data :: "js_string option"

record part =
  inlineData :: "inline_data option"

record content =
  parts :: "part list option"

record transcription_fragment =
  fragment_text :: "js_string option"

record server_content =
  modelTurn :: "content option"
  inputTranscription :: "transcription_fragment option"
  outputTranscription :: "transcription_fragment option"
  turnComplete :: bool
  interrupted :: bool

record live_server_message =
  serverContent :: "server_content option"

text \<open>
  \<open>message.serverContent?.modelTurn?.parts[0]?.inlineData?.data\<close>. The index into \<open>parts\<close>
  is not guarded: a model turn without \<open>parts\<close> raises TypeError.
\<close>

definition base64Audio :: "live_server_message \<Rightarrow> error + js_string option" where
  "base64Audio message =
     (case serverContent message of
        None \<Rightarrow> Inr None
      | Some sc \<Rightarrow>
          (case modelTurn sc of
             None \<Rightarrow> Inr None
           | Some turn \<Rightarrow>
               (case parts turn of
                  None \<Rightarrow> Inl TypeError
                | Some ps \<Rightarrow>
                    (case ps of
                       [] \<Rightarrow> Inr None
                     | p # _ \<Rightarrow>
                         (case inlineData p of
                            None \<Rightarrow> Inr None
                          | Some d \<Rightarrow> Inr (b64data d))))))"

text \<open>What the handler reads from the output context \<open>audioCtxOut\<close> when a message arrives.\<close>

record audio_clock =
  ctx_state :: context_state
  currentTime :: rat

text \<open>
  The body of the audio branch. The cursor is raised to the current time before the
  fragment is decoded, so that update stays when decoding raises.
\<close>

definition play_fragment :: "audio_clock \<Rightarrow> js_string \<Rightarrow> live_chat \<Rightarrow> error option \<times> live_chat" where
  "play_fragment ctx base64 s =
     (let s1 = s\<lparr>nextStartTimeRef := max (nextStartTimeRef s) (currentTime ctx)\<rparr> in
      case decode base64 of
        Inl e \<Rightarrow> (Some e, s1)
      | Inr bytes \<Rightarrow>
          (case decodeAudioData bytes 24000 of
             Inl e \<Rightarrow> (Some e, s1)
           | Inr audioBuffer \<Rightarrow>
               (let source = \<lparr>startTime = nextStartTimeRef s1, buffer = audioBuffer\<rparr> in
                (None,
                 s1\<lparr>effects := effects s1 @ [Start source],
                    nextStartTimeRef := nextStartTimeRef s1 + duration audioBuffer,
                    sourcesRef := sourcesRef s1 @ [source]\<rparr>))))"

text \<open>The listener for \<open>ended\<close> that the handler attaches to each node.\<close>

definition source_ended :: "source_node \<Rightarrow> live_chat \<Rightarrow> live_chat" where
  "source_ended source s = s\<lparr>sourcesRef := remove1 source (sourcesRef s)\<rparr>"

text \<open>\<open>ref.current += (fragment?.text || '')\<close>, when the message carries the fragment.\<close>

definition appended :: "transcription_fragment option \<Rightarrow> js_string" where
  "appended f =
     (case f of
        None \<Rightarrow> []
      | Some t \<Rightarrow> (case fragment_text t of None \<Rightarrow> [] | Some x \<Rightarrow> x))"

definition accumulate :: "server_content \<Rightarrow> live_chat \<Rightarrow> live_chat" where
  "accumulate sc s =
     s\<lparr>currentInputRef := currentInputRef s @ appended (inputTranscription sc),
       currentOutputRef := currentOutputRef s @ appended (outputTranscription sc)\<rparr>"

definition on_turnComplete :: "live_chat \<Rightarrow> live_chat" where
  "on_turnComplete s =
     (let uText = currentInputRef s;
          tText = currentOutputRef s;
          s1 = (if uText \<noteq> [] \<or> tText \<noteq> []
                then s\<lparr>transcription := transcription s
                        @ (if uText \<noteq> []
                           then [\<lparr>role = User, msg_text = uText, translation = None\<rparr>] else [])
                        @ (if tText \<noteq> []
                           then [\<lparr>role = Tutor, msg_text = tText, translation = None\<rparr>] else [])\<rparr>
                else s)
      in s1\<lparr>currentInputRef := [], currentOutputRef := []\<rparr>)"

definition on_interrupted :: "live_chat \<Rightarrow> live_chat" where
  "on_interrupted s =
     s\<lparr>effects := effects s @ map Stop (sourcesRef s),
       sourcesRef := [],
       nextStartTimeRef := 0\<rparr>"

text \<open>The three blocks of the handler that follow the audio branch.\<close>

definition after_audio :: "live_server_message \<Rightarrow> live_chat \<Rightarrow> live_chat" where
  "after_audio message s =
     (case serverContent message of
        None \<Rightarrow> s
      | Some sc \<Rightarrow>
          (let s1 = accumulate sc s;
               s2 = (if turnComplete sc then on_turnComplete s1 else s1)
           in if interrupted sc then on_interrupted s2 else s2))"

text \<open>
  \<open>onmessage\<close>. The result is the exception that ended the handler, if one did, and the
  state it left. An exception of the audio branch skips the rest of the handler.
\<close>

definition onmessage :: "audio_clock \<Rightarrow> live_server_message \<Rightarrow> live_chat \<Rightarrow> error option \<times> live_chat" where
  "onmessage ctx message s =
     (case base64Audio message of
        Inl e \<Rightarrow> (Some e, s)
      | Inr a \<Rightarrow>
          (case (case a of
                   None \<Rightarrow> (None, s)
                 | Some base64 \<Rightarrow>
                     if base64 \<noteq> [] \<and> ctx_state ctx \<noteq> Closed
                     then play_fragment ctx base64 s else (None, s)) of
             (Some e, s1) \<Rightarrow> (Some e, s1)
           | (None, s1) \<Rightarrow> (None, after_audio message s1)))"

text \<open>Messages handled one after the other, each with the clock reading at its arrival.\<close>

fun run_messages :: "(audio_clock \<times> live_server_message) list \<Rightarrow> live_chat \<Rightarrow> live_chat" where
  "run_messages [] s = s"
| "run_messages ((ctx, message) # rest) s = run_messages rest (snd (onmessage ctx message s))"

text \<open>
  The exception the audio branch raises on a message, which does not depend on the
  state, and the buffer it plays when it raises none and the message carries audio.
\<close>

definition audio_outcome :: "audio_clock \<Rightarrow> live_server_message \<Rightarrow> error + audio_buffer option" where
  "audio_outcome ctx message =
     (case base64Audio message of
        Inl e \<Rightarrow> Inl e
      | Inr None \<Rightarrow> Inr None
      | Inr (Some base64) \<Rightarrow>
          if base64 \<noteq> [] \<and> ctx_state ctx \<noteq> Closed
          then (case decode base64 of
                  Inl e \<Rightarrow> Inl e
                | Inr bytes \<Rightarrow>
                    (case decodeAudioData bytes 24000 of
                       Inl e \<Rightarrow> Inl e
                     | Inr audioBuffer \<Rightarrow> Inr (Some audioBuffer)))
          else Inr None)"

definition is_interruption :: "live_server_message \<Rightarrow> bool" where
  "is_interruption message =
     (case serverContent message of None \<Rightarrow> False | Some sc \<Rightarrow> interrupted sc)"

definition is_turn_complete :: "live_server_message \<Rightarrow> bool" where
  "is_turn_complete message =
     (case serverContent message of None \<Rightarrow> False | Some sc \<Rightarrow> turnComplete sc)"

text \<open>The text a message adds to the input buffer and to the output buffer.\<close>

definition input_text :: "live_server_message \<Rightarrow> js_string" where
  "input_text message =
     (case serverContent message of None \<Rightarrow> [] | Some sc \<Rightarrow> appended (inputTranscription sc))"

definition output_text :: "live_server_message \<Rightarrow> js_string" where
  "output_text message =
     (case serverContent message of None \<Rightarrow> [] | Some sc \<Rightarrow> appended (outputTranscription sc))"

text \<open>The messages a finished turn with buffers \<open>u\<close> and \<open>t\<close> adds to the transcript.\<close>

definition turn_messages :: "js_string \<Rightarrow> js_string \<Rightarrow> message list" where
  "turn_messages u t =
     (if u \<noteq> [] then [\<lparr>role = User, msg_text = u, translation = None\<rparr>] else [])
     @ (if t \<noteq> [] then [\<lparr>role = Tutor, msg_text = t, translation = None\<rparr>] else [])"

text \<open>Whether the audio branch of the handler raises on a message.\<close>

definition audio_raises :: "audio_clock \<Rightarrow> live_server_message \<Rightarrow> bool" where
  "audio_raises ctx message = (case audio_outcome ctx message of Inl e \<Rightarrow> True | Inr b \<Rightarrow> False)"

text \<open>
  The specification's schedule for a sequence of arrivals, from a cursor: each buffer
  that is played starts at the larger of the cursor and the clock reading at its arrival,
  and the cursor moves to that start plus the buffer's duration.
\<close>

fun schedule :: "rat \<Rightarrow> (audio_clock \<times> live_server_message) list \<Rightarrow> source_node list" where
  "schedule cursor [] = []"
| "schedule cursor ((ctx, message) # rest) =
     (case audio_outcome ctx message of
        Inr (Some b) \<Rightarrow>
          \<lparr>startTime = max cursor (currentTime ctx), buffer = b\<rparr>
            # schedule (max cursor (currentTime ctx) + duration b) rest
      | _ \<Rightarrow> schedule cursor rest)"

text \<open>An arrival that plays a fragment and carries no interruption.\<close>

definition plays :: "audio_clock \<times> live_server_message \<Rightarrow> bool" where
  "plays ev =
     (case audio_outcome (fst ev) (snd ev) of
        Inr (Some b) \<Rightarrow> \<not> is_interruption (snd ev)
      | _ \<Rightarrow> False)"

definition fragment_duration :: "audio_clock \<times> live_server_message \<Rightarrow> rat" where
  "fragment_duration ev =
     (case audio_outcome (fst ev) (snd ev) of Inr (Some b) \<Rightarrow> duration b | _ \<Rightarrow> 0)"

text \<open>The running prefix sums of a list of durations, from a first start time.\<close>

fun prefix_sums :: "rat \<Rightarrow> rat list \<Rightarrow> rat list" where
  "prefix_sums c [] = []"
| "prefix_sums c (d # ds) = c # prefix_sums (c + d) ds"

text \<open>
  The output clock never reads later than the end of the audio scheduled so far: no
  fragment arrives after the previous ones have finished playing.
\<close>

fun no_underrun :: "rat \<Rightarrow> (audio_clock \<times> live_server_message) list \<Rightarrow> bool" where
  "no_underrun c [] = True"
| "no_underrun c (ev # rest) =
     (currentTime (fst ev) \<le> c \<and> no_underrun (c + fragment_duration ev) rest)"

text \<open>The cursor after a sequence of arrivals that all play, from a cursor.\<close>

fun cursor_after :: "rat \<Rightarrow> (audio_clock \<times> live_server_message) list \<Rightarrow> rat" where
  "cursor_after c [] = c"
| "cursor_after c (ev # rest) =
     cursor_after (max c (currentTime (fst ev)) + fragment_duration ev) rest"

definition end_time :: "source_node \<Rightarrow> rat" where
  "end_time n = startTime n + duration (buffer n)"

definition non_overlapping :: "source_node list \<Rightarrow> bool" where
  "non_overlapping nodes = sorted_wrt (\<lambda>a b. end_time a \<le> startTime b) nodes"

section \<open>LiveChat: ending the session\<close>

text \<open>
  \<open>stopSession\<close>. The function is created anew at every render and reads \<open>transcription\<close>
  (and the language) as the constants of the render that created it, not as the state
  cell: they are arguments here, as are the identifier and the date of the log entry,
  which come from \<open>Math.random\<close> and the clock. The reference cells are read when the
  function runs. A frame handle is cancelled when it is truthy, that is, present and not
  zero.
\<close>

text \<open>The blocks of \<open>stopSession\<close>, in the order of the source.\<close>

definition save_session ::
  "message list \<Rightarrow> js_string \<Rightarrow> nat \<Rightarrow> language \<Rightarrow> live_chat \<Rightarrow> live_chat" where
  "save_session seen new_id now lang s =
     (if length seen > 1
      then s\<lparr>pastSessions :=
              \<lparr>log_id = new_id, log_date = now, messages = seen,
               log_language = lang\<rparr> # pastSessions s\<rparr>
      else s)"

definition close_session :: "live_chat \<Rightarrow> live_chat" where
  "close_session s =
     (case sessionPromiseRef s of
        None \<Rightarrow> s
      | Some h \<Rightarrow> s\<lparr>effects := effects s @ [Close_session h], sessionPromiseRef := None\<rparr>)"

definition release_audio_in :: "live_chat \<Rightarrow> live_chat" where
  "release_audio_in s =
     (case audioContextInRef s of
        None \<Rightarrow> s
      | Some st \<Rightarrow>
          s\<lparr>effects := effects s @ (if st \<noteq> Closed then [Close_audio_in] else []),
            audioContextInRef := None\<rparr>)"

definition release_audio_out :: "live_chat \<Rightarrow> live_chat" where
  "release_audio_out s =
     (case audioContextOutRef s of
        None \<Rightarrow> s
      | Some st \<Rightarrow>
          s\<lparr>effects := effects s @ (if st \<noteq> Closed then [Close_audio_out] else []),
            audioContextOutRef := None\<rparr>)"

definition stop_sources :: "live_chat \<Rightarrow> live_chat" where
  "stop_sources s = s\<lparr>effects := effects s @ map Stop (sourcesRef s), sourcesRef := []\<rparr>"

definition cancel_metering :: "live_chat \<Rightarrow> live_chat" where
  "cancel_metering s =
     (case animationFrameRef s of
        None \<Rightarrow> s
      | Some f \<Rightarrow>
          if f \<noteq> 0
          then s\<lparr>effects := effects s @ [Cancel_animation_frame f], animationFrameRef := None\<rparr>
          else s)"

definition stopSession ::
  "message list \<Rightarrow> js_string \<Rightarrow> nat \<Rightarrow> language \<Rightarrow> live_chat \<Rightarrow> live_chat" where
  "stopSession seen new_id now lang s =
     (let s1 = save_session seen new_id now lang s;
          s2 = s1\<lparr>isActive := False, isConnecting := False\<rparr>;
          s3 = close_session s2;
          s4 = release_audio_in s3;
          s5 = release_audio_out s4;
          s6 = stop_sources s5;
          s7 = cancel_metering s6
      in s7\<lparr>analyzerRef := False, audioLevel := 0\<rparr>)"





text \<open>The component as it is mounted: the initial values of its state and reference cells.\<close>

definition initial_live_chat :: live_chat where
  "initial_live_chat =
     \<lparr>isActive = False, isConnecting = False, transcription = [], pastSessions = [],
      viewingHistoryIdx = None, audioLevel = 0, currentInputRef = [], currentOutputRef = [],
      targetTransLang = Portugues_Brasil, isTranslatingIdx = None,
      sessionPromiseRef = None, audioContextInRef = None, audioContextOutRef = None,
      nextStartTimeRef = 0, sourcesRef = [], analyzerRef = False,
      animationFrameRef = None, effects = []\<rparr>"

section \<open>Requests to the model\<close>

text \<open>
  An asynchronous function runs until it returns or until its first \<open>await\<close> of a request
  to the model; the request goes out at that point. \<open>Awaiting\<close> holds the request and the
  state at the suspension. The requests carry the API key they were built with.
\<close>

datatype request =
    Translate_message js_string language js_string
  | Culture_search js_string language "js_string option"
  | Speak "js_string option" language js_string
  | Analyze_image js_string language "js_string option"
  | Translate_analysis js_string language js_string

datatype 's async = Returned 's | Awaiting request 's

text \<open>How an awaited request ends: it is rejected, or it resolves with \<open>response.text\<close>.\<close>

datatype response = Rejected | Resolved "js_string option"

text \<open>The instruction shown when no key is configured (two of its letters are not ASCII).\<close>

definition credential_missing :: js_string where
  "credential_missing =
     js ''API Key n'' @ [227] @ js ''o configurada. Clique no t'' @ [237]
     @ js ''tulo do app (5 vezes) para configurar sua chave e tente novamente.''"

section \<open>LiveChat: translating a message\<close>

text \<open>
  \<open>translateMessage\<close> up to its \<open>await\<close>, and its continuation when the request has
  ended. Each invocation reads the component's state as the previous one left it: the
  function is invoked from a click, and the component is rendered again between clicks.
\<close>

definition translateMessage :: "key_env \<Rightarrow> nat \<Rightarrow> live_chat \<Rightarrow> live_chat async" where
  "translateMessage env idx s =
     (if idx \<ge> length (transcription s) then Returned s
      else
        (let msg = transcription s ! idx in
         if role msg \<noteq> Tutor \<or> truthy (translation msg) \<or> isTranslatingIdx s \<noteq> None
         then Returned s
         else
           (let s1 = s\<lparr>isTranslatingIdx := Some idx\<rparr> in
            case getGeminiKey env of
              None \<Rightarrow> Returned (s1\<lparr>isTranslatingIdx := None\<rparr>)
            | Some apiKey \<Rightarrow>
                Awaiting (Translate_message apiKey (targetTransLang s) (msg_text msg)) s1)))"

definition translateMessage_resume :: "nat \<Rightarrow> response \<Rightarrow> live_chat \<Rightarrow> live_chat" where
  "translateMessage_resume idx r s =
     (let s1 = (case r of
                  Rejected \<Rightarrow> s\<lparr>effects := effects s @ [Console_error]\<rparr>
                | Resolved translatedText \<Rightarrow>
                    (case translatedText of
                       None \<Rightarrow> s
                     | Some t \<Rightarrow>
                         if t \<noteq> []
                         then s\<lparr>transcription :=
                                 map (\<lambda>(i, m). if i = idx then m\<lparr>translation := Some t\<rparr> else m)
                                   (enumerate 0 (transcription s))\<rparr>
                         else s))
      in s1\<lparr>isTranslatingIdx := None\<rparr>)"

text \<open>
  The component together with the translation requests that are in flight, each named by
  the index of its message, and the events that reach it in some order: a click on a
  message's translate button, the end of an in-flight request, a message of the live
  session, the end of a playback node, and a call of \<open>stopSession\<close> from a render that saw
  a given transcript.
\<close>

record chat_world =
  chat :: live_chat
  in_flight :: "nat list"

datatype chat_event =
    Translate nat
  | Settle nat response
  | Server audio_clock live_server_message
  | Ended source_node
  | Stop_session "message list" js_string nat

fun chat_step :: "key_env \<Rightarrow> language \<Rightarrow> chat_world \<Rightarrow> chat_event \<Rightarrow> chat_world" where
  "chat_step env lang w (Translate idx) =
     (case translateMessage env idx (chat w) of
        Returned s \<Rightarrow> w\<lparr>chat := s\<rparr>
      | Awaiting req s \<Rightarrow> w\<lparr>chat := s, in_flight := in_flight w @ [idx]\<rparr>)"
| "chat_step env lang w (Settle k r) =
     (if k < length (in_flight w)
      then w\<lparr>chat := translateMessage_resume (in_flight w ! k) r (chat w),
             in_flight := take k (in_flight w) @ drop (Suc k) (in_flight w)\<rparr>
      else w)"
| "chat_step env lang w (Server ctx message) = w\<lparr>chat := snd (onmessage ctx message (chat w))\<rparr>"
| "chat_step env lang w (Ended source) = w\<lparr>chat := source_ended source (chat w)\<rparr>"
| "chat_step env lang w (Stop_session seen new_id now) =
     w\<lparr>chat := stopSession seen new_id now lang (chat w)\<rparr>"

definition run_chat :: "key_env \<Rightarrow> language \<Rightarrow> chat_event list \<Rightarrow> chat_world \<Rightarrow> chat_world" where
  "run_chat env lang evs w = foldl (chat_step env lang) w evs"

text \<open>No translation request is in flight, or one is and the in-progress marker names it.\<close>

definition at_most_one_pending :: "chat_world \<Rightarrow> bool" where
  "at_most_one_pending w =
     (case in_flight w of
        [] \<Rightarrow> True
      | [i] \<Rightarrow> isTranslatingIdx (chat w) = Some i
      | _ \<Rightarrow> False)"

text \<open>The conditions under which \<open>translateMessage\<close> sends a request for a message: it
  exists, is the tutor's, has no translation yet, no translation is in progress, and a key
  is configured.\<close>

definition translatable :: "key_env \<Rightarrow> nat \<Rightarrow> live_chat \<Rightarrow> bool" where
  "translatable env idx s =
     (idx < length (transcription s) \<and> role (transcription s ! idx) = Tutor \<and>
      \<not> truthy (translation (transcription s ! idx)) \<and> isTranslatingIdx s = None \<and>
      getGeminiKey env \<noteq> None)"

section \<open>CultureHub and VisualScan: the calls to the model\<close>

text \<open>
  The state cells these functions read or write, and each function up to its \<open>await\<close>.
  \<open>playExpression\<close> builds its client from \<open>process.env.API_KEY\<close> as it finds it and does
  not call \<open>getGeminiKey\<close>.
\<close>

record culture_hub =
  isLoading :: bool
  hub_error :: "js_string option"
  hub_sources :: "(js_string \<times> js_string) list"
  playingAudioIdx :: "nat option"
  hub_effects :: "effect list"

definition fetchCultureData ::
  "key_env \<Rightarrow> language \<Rightarrow> bool \<Rightarrow> js_string option \<Rightarrow> culture_hub \<Rightarrow> culture_hub async" where
  "fetchCultureData env lang onAction query h =
     (let h1 = h\<lparr>isLoading := True, hub_error := None, hub_sources := [],
                 hub_effects := hub_effects h @ (if onAction then [On_action] else [])\<rparr> in
      case getGeminiKey env of
        None \<Rightarrow> Returned (h1\<lparr>hub_error := Some credential_missing, isLoading := False\<rparr>)
      | Some apiKey \<Rightarrow>
          Awaiting (Culture_search apiKey lang (if truthy query then query else None)) h1)"

definition playExpression ::
  "key_env \<Rightarrow> language \<Rightarrow> js_string \<Rightarrow> nat \<Rightarrow> culture_hub \<Rightarrow> culture_hub async" where
  "playExpression env lang phrase index h =
     (if playingAudioIdx h \<noteq> None then Returned h
      else Awaiting (Speak (processKey env) lang phrase) (h\<lparr>playingAudioIdx := Some index\<rparr>))"

record visual_scan =
  scan_result :: "js_string option"
  isScanning :: bool
  scan_translation :: "js_string option"
  isTranslating :: bool
  scan_targetTransLang :: language
  scan_effects :: "effect list"

text \<open>\<open>base64Img.split(',')[1]\<close>: the text between the first comma and the second, if any.\<close>

definition after_comma :: "js_string \<Rightarrow> js_string option" where
  "after_comma s =
     (if 44 \<in> set s
      then Some (takeWhile (\<lambda>c. c \<noteq> 44) (tl (dropWhile (\<lambda>c. c \<noteq> 44) s)))
      else None)"

definition scanImage ::
  "key_env \<Rightarrow> language \<Rightarrow> bool \<Rightarrow> js_string \<Rightarrow> visual_scan \<Rightarrow> visual_scan async" where
  "scanImage env lang onAction base64Img v =
     (let v1 = v\<lparr>isScanning := True, scan_result := None, scan_translation := None,
                 scan_effects := scan_effects v @ (if onAction then [On_action] else [])\<rparr> in
      case getGeminiKey env of
        None \<Rightarrow>
          Returned (v1\<lparr>scan_effects := scan_effects v1 @ [Alert credential_missing],
                      isScanning := False\<rparr>)
      | Some apiKey \<Rightarrow> Awaiting (Analyze_image apiKey lang (after_comma base64Img)) v1)"

definition translateResult :: "key_env \<Rightarrow> visual_scan \<Rightarrow> visual_scan async" where
  "translateResult env v =
     (case scan_result v of
        None \<Rightarrow> Returned v
      | Some r \<Rightarrow>
          if r = [] \<or> isTranslating v then Returned v
          else
            (let v1 = v\<lparr>isTranslating := True\<rparr> in
             case getGeminiKey env of
               None \<Rightarrow> Returned (v1\<lparr>isTranslating := False\<rparr>)
             | Some apiKey \<Rightarrow>
                 Awaiting (Translate_analysis apiKey (scan_targetTransLang v) r) v1))"

section \<open>Example messages and states\<close>

text \<open>
  A server content with nothing in it, a message that carries one audio fragment, a
  turn-complete signal, an interruption, a clock reading of a running context, a buffer of
  one silent frame, and a chat with two nodes pending.
\<close>

definition bare_content :: server_content where
  "bare_content =
     \<lparr>modelTurn = None, inputTranscription = None, outputTranscription = None,
      turnComplete = False, interrupted = False\<rparr>"

definition fragment_message :: "js_string \<Rightarrow> live_server_message" where
  "fragment_message base64 =
     \<lparr>serverContent = Some (bare_content\<lparr>modelTurn :=
        Some \<lparr>parts = Some [\<lparr>inlineData = Some \<lparr>b64data = Some base64\<rparr>\<rparr>]\<rparr>\<rparr>)\<rparr>"

definition running_at :: "rat \<Rightarrow> audio_clock" where
  "running_at t = \<lparr>ctx_state = Running, currentTime = t\<rparr>"

definition turn_complete_message :: live_server_message where
  "turn_complete_message = \<lparr>serverContent = Some (bare_content\<lparr>turnComplete := True\<rparr>)\<rparr>"

definition interruption_message :: live_server_message where
  "interruption_message = \<lparr>serverContent = Some (bare_content\<lparr>interrupted := True\<rparr>)\<rparr>"

definition silent_frame :: audio_buffer where
  "silent_frame = \<lparr>sampleRate = 24000, channelData = [0]\<rparr>"

definition two_pending :: live_chat where
  "two_pending =
     initial_live_chat\<lparr>nextStartTimeRef := 7,
       sourcesRef := [\<lparr>startTime = 5, buffer = silent_frame\<rparr>,
                      \<lparr>startTime = 6, buffer = silent_frame\<rparr>]\<rparr>"

text \<open>Two fragments of one frame each that arrive while audio is still scheduled, and
  one fragment that arrives five seconds after the context started.\<close>

definition two_fragments :: "(audio_clock \<times> live_server_message) list" where
  "two_fragments =
     [(running_at 0, fragment_message (js ''AAA='')),
      (running_at (1 / 48000), fragment_message (js ''AAA=''))]"

definition late_fragment :: "(audio_clock \<times> live_server_message) list" where
  "late_fragment = [(running_at 5, fragment_message (js ''AAA=''))]"

text \<open>
  The English greeting of \<open>GREETINGS\<close>, and a session that has been talked in: the
  greeting and one answer, everything open.
\<close>

definition greeting :: message where
  "greeting =
     \<lparr>role = Tutor,
      msg_text = js ''Hello! I'm your English practice partner. How are you today?'',
      translation = None\<rparr>"


text \<open>Key environments with a usable key, with none, and with only a short legacy key;
  a chat that shows the greeting; the two other components at rest.\<close>

definition keyed :: key_env where
  "keyed = \<lparr>localKey = Some (js ''AIzaSy-example-key''), viteKey = None, processKey = None\<rparr>"

definition no_keys :: key_env where
  "no_keys = \<lparr>localKey = None, viteKey = None, processKey = None\<rparr>"

definition short_process_key :: key_env where
  "short_process_key = \<lparr>localKey = None, viteKey = None, processKey = Some (js ''short'')\<rparr>"

definition greeted :: chat_world where
  "greeted = \<lparr>chat = initial_live_chat\<lparr>isActive := True, transcription := [greeting]\<rparr>,
               in_flight = []\<rparr>"

definition idle_hub :: culture_hub where
  "idle_hub = \<lparr>isLoading = False, hub_error = None, hub_sources = [], playingAudioIdx = None,
                hub_effects = []\<rparr>"

definition idle_scan :: visual_scan where
  "idle_scan = \<lparr>scan_result = Some (js ''A cat''), isScanning = False, scan_translation = None,
                 isTranslating = False, scan_targetTransLang = Portugues_Brasil,
                 scan_effects = []\<rparr>"

section \<open>Properties of the key resolution\<close>

lemma key_ok_iff: "key_ok k = (\<not> absent_or_short k)"
  by (cases k) (auto simp: key_ok_def absent_or_short_def truthy_def)

lemma key_ok_drop_short: "key_ok (drop_short k) = key_ok k"
  by (cases k) (auto simp: key_ok_def absent_or_short_def truthy_def drop_short_def)

lemma drop_short_ok: "key_ok k \<Longrightarrow> drop_short k = k"
  by (simp add: drop_short_def key_ok_iff)

text \<open>
  Claim C7. \<open>getGeminiKey\<close> resolves the key in the priority order localStorage, then
  \<open>VITE_API_KEY\<close>, then \<open>process.env.API_KEY\<close>: it returns the first available candidate
  of that list, and null when none is available.
\<close>

theorem getGeminiKey_priority:
  "candidates env = [localKey env, viteKey env, processKey env] \<and>
   getGeminiKey env = first_available (candidates env)"
  by (simp add: getGeminiKey_def first_available_def candidates_def)

text \<open>
  Claim C9. A candidate of length 10 or less counts as absent: removing every such
  candidate from the environment does not change the result, the result is null exactly
  when each of the three candidates is missing or too short, and a key that is returned
  has more than ten code units.
\<close>

theorem getGeminiKey_short_is_absent:
  "getGeminiKey env = getGeminiKey (without_short_keys env) \<and>
   (getGeminiKey env = None) =
     (absent_or_short (localKey env) \<and> absent_or_short (viteKey env) \<and>
      absent_or_short (processKey env)) \<and>
   (case getGeminiKey env of None \<Rightarrow> True | Some k \<Rightarrow> length k > 10)"
proof -
  have same: "getGeminiKey env = getGeminiKey (without_short_keys env)"
    by (simp add: getGeminiKey_def without_short_keys_def key_ok_drop_short drop_short_ok)
  have none: "(getGeminiKey env = None) =
     (absent_or_short (localKey env) \<and> absent_or_short (viteKey env) \<and>
      absent_or_short (processKey env))"
    by (auto simp: getGeminiKey_def key_ok_iff absent_or_short_def split: option.splits)
  have long: "(case getGeminiKey env of None \<Rightarrow> True | Some k \<Rightarrow> length k > 10)"
    by (auto simp: getGeminiKey_def key_ok_def split: option.splits)
  from same none long show ?thesis by blast
qed

section \<open>Properties of the base64 helpers\<close>

lemma unat_b64_char:
  "unat (b64_char v) =
     (if v < 26 then v + 65 else if v < 52 then v + 71 else if v < 62 then v - 4
      else if v = 62 then 43 else 47)"
proof -
  have u: "\<And>n. n < 65536 \<Longrightarrow> unat (of_nat n :: 16 word) = n"
    by (simp only: unat_of_nat) simp
  show ?thesis
    unfolding b64_char_def
    by (auto simp only: u split: if_splits) (simp_all add: u)
qed

lemma b64_value_char: "v < 64 \<Longrightarrow> b64_value (b64_char v) = Some v"
  by (auto simp: b64_value_def unat_b64_char Let_def)

lemma b64_char_not_pad: "b64_char v \<noteq> 61"
proof
  assume "b64_char v = 61"
  then have "unat (b64_char v) = 61" by simp
  then show False by (simp add: unat_b64_char split: if_splits)
qed

lemma b64_char_not_whitespace: "\<not> ascii_whitespace (b64_char v)"
proof
  assume "ascii_whitespace (b64_char v)"
  then have "unat (b64_char v) \<in> {9, 10, 12, 13, 32}"
    by (auto simp: ascii_whitespace_def)
  then show False by (auto simp: unat_b64_char split: if_splits)
qed

lemma sextets_lt_64: "\<forall>x\<in>set xs. x < 256 \<Longrightarrow> \<forall>v\<in>set (sextets xs). v < 64"
  by (induction xs rule: sextets.induct) auto

lemma length_sextets:
  "length (sextets xs) = 4 * (length xs div 3) + (if length xs mod 3 = 0 then 0 else length xs mod 3 + 1)"
  by (induction xs rule: sextets.induct) auto

lemma octets_sextets: "\<forall>x\<in>set xs. x < 256 \<Longrightarrow> octets (sextets xs) = xs"
  by (induction xs rule: sextets.induct) auto

lemma those_b64_value:
  "\<forall>v\<in>set vs. v < 64 \<Longrightarrow> those (map b64_value (map b64_char vs)) = Some vs"
  by (induction vs) (auto simp: b64_value_char)

lemma encode_loop: "foldl (\<lambda>binary b. binary @ [f b]) acc bytes = acc @ map f bytes"
  by (induction bytes arbitrary: acc) auto

lemma decode_loop_aux:
  "k \<le> length s \<Longrightarrow> length bs = length s \<Longrightarrow>
   fold (\<lambda>i bytes. bytes[i := f (s ! i)]) [0..<k] bs = map f (take k s) @ drop k bs"
proof (induction k)
  case 0
  then show ?case by simp
next
  case (Suc k)
  then have "fold (\<lambda>i bytes. bytes[i := f (s ! i)]) [0..<Suc k] bs
      = (map f (take k s) @ drop k bs)[k := f (s ! k)]"
    by simp
  also have "\<dots> = map f (take k s) @ (drop k bs)[0 := f (s ! k)]"
    using Suc.prems by (simp add: list_update_append)
  also have "\<dots> = map f (take k s) @ f (s ! k) # drop (Suc k) bs"
    using Suc.prems by (cases "drop k bs") (auto simp: drop_Suc drop_tl)
  also have "\<dots> = map f (take (Suc k) s) @ drop (Suc k) bs"
    using Suc.prems by (simp add: take_Suc_conv_app_nth)
  finally show ?case .
qed

lemma decode_loop:
  "fold (\<lambda>i bytes. bytes[i := f (s ! i)]) [0..<length s] (replicate (length s) z) = map f s"
  using decode_loop_aux [of "length s" s "replicate (length s) z" f] by simp


lemma pad_not_whitespace: "\<not> ascii_whitespace 61"
  by (simp add: ascii_whitespace_def)

lemma last_b64_not_pad: "vs \<noteq> [] \<Longrightarrow> last (map b64_char vs) \<noteq> 61"
  by (simp add: last_map b64_char_not_pad)

lemma strip_padding_encoded:
  assumes "k \<le> 2" and "length (map b64_char vs @ replicate k 61) mod 4 = 0"
  shows "strip_padding (map b64_char vs @ replicate k 61) = map b64_char vs"
proof -
  consider "k = 0" | "k = 1" | "k = 2" using assms(1) by linarith
  then show ?thesis
  proof cases
    case 1
    then show ?thesis
      using last_b64_not_pad [of vs] by (cases "vs = []") (auto simp: strip_padding_def)
  next
    case 2
    then show ?thesis
      using assms(2) last_b64_not_pad [of vs]
      by (cases "vs = []") (auto simp: strip_padding_def butlast_append)
  next
    case 3
    then have "replicate k (61 :: 16 word) = [61, 61]"
      by (simp add: numeral_2_eq_2)
    then show ?thesis
      using assms(2) by (simp add: strip_padding_def butlast_append)
  qed
qed

lemma padded_length:
  "length (map b64_char (sextets xs) @ replicate ((3 - length xs mod 3) mod 3) c) mod 4 = 0"
proof -
  have "length xs mod 3 = 0 \<or> length xs mod 3 = 1 \<or> length xs mod 3 = 2" by arith
  then show ?thesis by (auto simp: length_sextets)
qed

lemma unpadded_length: "length (sextets xs) mod 4 \<noteq> 1"
proof -
  have "length xs mod 3 = 0 \<or> length xs mod 3 = 1 \<or> length xs mod 3 = 2" by arith
  then show ?thesis by (auto simp: length_sextets)
qed

lemma atob_btoa:
  assumes "\<forall>c\<in>set s. c \<le> 255"
  shows "\<exists>t. btoa s = Inr t \<and> atob t = Inr s"
proof -
  let ?xs = "map unat s"
  let ?k = "(3 - length s mod 3) mod 3"
  let ?t = "map b64_char (sextets ?xs) @ replicate ?k 61"
  have small: "\<forall>x\<in>set ?xs. x < 256"
  proof
    fix x assume "x \<in> set ?xs"
    then obtain c where c: "c \<in> set s" "x = unat c" by auto
    with assms have "c \<le> 255" by blast
    then have "unat c \<le> unat (255 :: 16 word)" by (simp only: word_le_nat_alt)
    with c show "x < 256" by simp
  qed
  have enc: "btoa s = Inr ?t"
    using assms by (auto simp: btoa_def list_ex_iff not_less)
  have nows: "filter (\<lambda>c. \<not> ascii_whitespace c) ?t = ?t"
    by (rule filter_True) (auto simp: b64_char_not_whitespace pad_not_whitespace)
  have strip: "strip_padding ?t = map b64_char (sextets ?xs)"
    using padded_length [of ?xs 61] by (intro strip_padding_encoded) auto
  have len: "length (map b64_char (sextets ?xs)) mod 4 \<noteq> 1"
    using unpadded_length [of ?xs] by simp
  have vals: "those (map b64_value (map b64_char (sextets ?xs))) = Some (sextets ?xs)"
    by (rule those_b64_value) (rule sextets_lt_64 [OF small])
  have again: "map of_nat (octets (sextets ?xs)) = s"
    by (simp add: octets_sextets [OF small] map_idI)
  have "atob ?t = Inr s"
    unfolding atob_def nows strip Let_def using len vals again by simp
  with enc show ?thesis by blast
qed

lemma unat_fromCharCode: "unat (ucast (b::byte) :: 16 word) = unat b"
proof -
  have "unat b < 2 ^ LENGTH(8)" by (rule unsigned_less)
  then have "unat b < 2 ^ 16" by simp
  then show ?thesis by (simp add: unsigned_ucast_eq take_bit_nat_eq_self)
qed

text \<open>
  Claim C10. For every byte array, base64-encoding it with \<open>encode\<close> succeeds and
  \<open>decode\<close> of the result gives the byte array back.
\<close>

theorem decode_encode: "\<exists>base64. encode bytes = Inr base64 \<and> decode base64 = Inr bytes"
proof -
  let ?s = "map ucast bytes :: js_string"
  have "\<forall>c\<in>set ?s. c \<le> 255"
  proof
    fix c assume "c \<in> set ?s"
    then obtain b :: byte where "c = ucast b" by auto
    moreover have "unat b < 2 ^ LENGTH(8)" by (rule unsigned_less)
    then have "unat (ucast b :: 16 word) < 256"
      by (simp add: unat_fromCharCode)
    ultimately show "c \<le> 255" by (simp add: word_le_nat_alt)
  qed
  from atob_btoa [OF this] obtain t where t: "btoa ?s = Inr t" "atob t = Inr ?s" by blast
  have "encode bytes = Inr t"
    using t(1) by (simp add: encode_def encode_loop)
  moreover have again: "map ucast ?s = bytes"
    by (simp add: map_idI ucast_up_ucast_id is_up)
  have "decode t = Inr (map ucast ?s)"
    unfolding decode_def t(2) using decode_loop [of ucast ?s 0] by simp
  then have "decode t = Inr bytes"
    by (simp only: again)
  ultimately show ?thesis by blast
qed

section \<open>Properties of the message handler\<close>

lemma onmessage_after_audio:
  "audio_outcome ctx message = Inr None \<Longrightarrow>
   onmessage ctx message s = (None, after_audio message s)"
  by (auto simp: onmessage_def audio_outcome_def play_fragment_def Let_def
           split: sum.splits option.splits if_splits)

lemma onmessage_played:
  "audio_outcome ctx message = Inr (Some b) \<Longrightarrow>
   onmessage ctx message s =
     (None, after_audio message
        (s\<lparr>effects := effects s @ [Start \<lparr>startTime = max (nextStartTimeRef s) (currentTime ctx), buffer = b\<rparr>],
           nextStartTimeRef := max (nextStartTimeRef s) (currentTime ctx) + duration b,
           sourcesRef := sourcesRef s @ [\<lparr>startTime = max (nextStartTimeRef s) (currentTime ctx), buffer = b\<rparr>]\<rparr>))"
  by (auto simp: onmessage_def audio_outcome_def play_fragment_def Let_def
           split: sum.splits option.splits if_splits)

lemma onmessage_completes:
  "\<not> audio_raises ctx message \<Longrightarrow> \<exists>s1. onmessage ctx message s = (None, after_audio message s1)"
  apply (cases "audio_outcome ctx message")
   apply (simp add: audio_raises_def)
  subgoal for b
    by (cases b) (auto simp: onmessage_after_audio onmessage_played)
  done

lemma no_audio_never_raises: "base64Audio message = Inr None \<Longrightarrow> \<not> audio_raises ctx message"
  by (simp add: audio_raises_def audio_outcome_def)

lemma after_audio_interruption:
  "is_interruption message \<Longrightarrow>
   sourcesRef (after_audio message s) = [] \<and> nextStartTimeRef (after_audio message s) = 0"
  by (auto simp: is_interruption_def after_audio_def on_interrupted_def Let_def split: option.splits)

text \<open>
  Claim C2. In every state of the playback pipeline, whatever nodes are pending and
  wherever the cursor stands, the handler run on a message that carries the interruption
  marker ends without an exception, with \<open>sourcesRef\<close> empty and \<open>nextStartTimeRef\<close>
  zero. (The audio branch runs first; a message whose audio fragment makes it raise never
  reaches the interruption block, and a message without a fragment never raises.)
\<close>

theorem interruption_resets_playback:
  assumes "is_interruption message" and "\<not> audio_raises ctx message"
  shows "fst (onmessage ctx message s) = None \<and>
         sourcesRef (snd (onmessage ctx message s)) = [] \<and>
         nextStartTimeRef (snd (onmessage ctx message s)) = 0"
proof -
  from assms(2) obtain s1 where "onmessage ctx message s = (None, after_audio message s1)"
    using onmessage_completes by blast
  then show ?thesis
    using after_audio_interruption [OF assms(1), of s1] by simp
qed

lemma after_audio_turn_complete:
  "is_turn_complete message \<Longrightarrow>
   transcription (after_audio message s) =
     transcription s @ turn_messages (currentInputRef s @ input_text message)
                                      (currentOutputRef s @ output_text message) \<and>
   currentInputRef (after_audio message s) = [] \<and>
   currentOutputRef (after_audio message s) = []"
  by (auto simp: is_turn_complete_def after_audio_def on_interrupted_def on_turnComplete_def
        accumulate_def turn_messages_def input_text_def output_text_def Let_def
      split: option.splits)

text \<open>
  Claim C3. For all contents of the two transcript buffers, the handler run on a
  turn-complete signal appends to the transcript a user message with the input buffer's
  text exactly when that text is not empty, then a tutor message with the output buffer's
  text exactly when that text is not empty, and leaves both buffers empty. The buffers are
  taken with what the message itself adds to them.
\<close>

theorem turn_complete_commits_transcripts:
  assumes "is_turn_complete message" and "\<not> audio_raises ctx message"
  shows "fst (onmessage ctx message s) = None \<and>
         transcription (snd (onmessage ctx message s)) =
           transcription s @ turn_messages (currentInputRef s @ input_text message)
                                            (currentOutputRef s @ output_text message) \<and>
         currentInputRef (snd (onmessage ctx message s)) = [] \<and>
         currentOutputRef (snd (onmessage ctx message s)) = []"
proof (cases "audio_outcome ctx message")
  case (Inl e)
  with assms(2) show ?thesis by (simp add: audio_raises_def)
next
  case (Inr b)
  show ?thesis
  proof (cases b)
    case None
    with Inr show ?thesis
      using after_audio_turn_complete [OF assms(1), of s] by (simp add: onmessage_after_audio)
  next
    case (Some buf)
    with Inr show ?thesis
      using after_audio_turn_complete [OF assms(1)] by (simp add: onmessage_played)
  qed
qed

theorem turn_complete_commits_transcripts_witness:
  "transcription (snd (onmessage (running_at 0) turn_complete_message
       (initial_live_chat\<lparr>currentInputRef := js ''Hello''\<rparr>))) =
     [\<lparr>role = User, msg_text = js ''Hello'', translation = None\<rparr>] \<and>
   transcription (snd (onmessage (running_at 0) turn_complete_message initial_live_chat)) = []"
proof -
  have tc: "is_turn_complete turn_complete_message"
    by (simp add: is_turn_complete_def turn_complete_message_def bare_content_def)
  have ok: "\<not> audio_raises (running_at 0) turn_complete_message"
    by (simp add: audio_raises_def audio_outcome_def base64Audio_def
          turn_complete_message_def bare_content_def)
  have nothing_added: "input_text turn_complete_message = [] \<and> output_text turn_complete_message = []"
    by (simp add: input_text_def output_text_def appended_def turn_complete_message_def
          bare_content_def)
  show ?thesis
    using turn_complete_commits_transcripts [OF tc ok, of "initial_live_chat\<lparr>currentInputRef := js ''Hello''\<rparr>"]
      turn_complete_commits_transcripts [OF tc ok, of initial_live_chat] nothing_added
    by (simp add: turn_messages_def initial_live_chat_def js_def)
qed

theorem interruption_resets_playback_witness:
  "length (sourcesRef two_pending) = 2 \<and> nextStartTimeRef two_pending = 7 \<and>
   fst (onmessage (running_at 6) interruption_message two_pending) = None \<and>
   sourcesRef (snd (onmessage (running_at 6) interruption_message two_pending)) = [] \<and>
   nextStartTimeRef (snd (onmessage (running_at 6) interruption_message two_pending)) = 0"
proof -
  have i: "is_interruption interruption_message"
    by (simp add: is_interruption_def interruption_message_def bare_content_def)
  have ok: "\<not> audio_raises (running_at 6) interruption_message"
    by (simp add: audio_raises_def audio_outcome_def base64Audio_def
          interruption_message_def bare_content_def)
  show ?thesis
    using interruption_resets_playback [OF i ok, of two_pending]
    by (simp add: two_pending_def initial_live_chat_def)
qed

section \<open>Properties of the playback schedule\<close>

lemma duration_nonneg: "0 \<le> duration b"
  by (simp add: duration_def)

lemma after_audio_playback:
  "\<not> is_interruption message \<Longrightarrow>
   nextStartTimeRef (after_audio message s) = nextStartTimeRef s \<and>
   effects (after_audio message s) = effects s \<and>
   sourcesRef (after_audio message s) = sourcesRef s"
  by (auto simp: is_interruption_def after_audio_def on_turnComplete_def accumulate_def Let_def
      split: option.splits)

lemma plays_step:
  assumes "plays (ctx, message)"
  shows "\<exists>b. audio_outcome ctx message = Inr (Some b) \<and>
     nextStartTimeRef (snd (onmessage ctx message s)) =
       max (nextStartTimeRef s) (currentTime ctx) + duration b \<and>
     effects (snd (onmessage ctx message s)) =
       effects s @ [Start \<lparr>startTime = max (nextStartTimeRef s) (currentTime ctx), buffer = b\<rparr>] \<and>
     sourcesRef (snd (onmessage ctx message s)) =
       sourcesRef s @ [\<lparr>startTime = max (nextStartTimeRef s) (currentTime ctx), buffer = b\<rparr>]"
proof -
  from assms obtain b where b: "audio_outcome ctx message = Inr (Some b)"
    and ni: "\<not> is_interruption message"
    by (auto simp: plays_def split: sum.splits option.splits)
  show ?thesis
    using b after_audio_playback [OF ni] by (simp add: onmessage_played)
qed

lemma run_messages_schedule:
  "\<forall>ev\<in>set evs. plays ev \<Longrightarrow>
   effects (run_messages evs s) = effects s @ map Start (schedule (nextStartTimeRef s) evs) \<and>
   sourcesRef (run_messages evs s) = sourcesRef s @ schedule (nextStartTimeRef s) evs"
proof (induction evs arbitrary: s)
  case Nil
  then show ?case by simp
next
  case (Cons ev evs)
  obtain ctx message where ev: "ev = (ctx, message)" by (cases ev)
  from Cons.prems ev have "plays (ctx, message)" by simp
  from plays_step [OF this, of s] obtain b where
    b: "audio_outcome ctx message = Inr (Some b)"
    and c: "nextStartTimeRef (snd (onmessage ctx message s)) =
       max (nextStartTimeRef s) (currentTime ctx) + duration b"
    and e: "effects (snd (onmessage ctx message s)) =
       effects s @ [Start \<lparr>startTime = max (nextStartTimeRef s) (currentTime ctx), buffer = b\<rparr>]"
    and r: "sourcesRef (snd (onmessage ctx message s)) =
       sourcesRef s @ [\<lparr>startTime = max (nextStartTimeRef s) (currentTime ctx), buffer = b\<rparr>]"
    by blast
  from Cons.prems have rest: "\<forall>ev\<in>set evs. plays ev" by simp
  show ?case
    using Cons.IH [OF rest, of "snd (onmessage ctx message s)"] b c e r
    by (simp add: ev)
qed

lemma run_messages_cursor:
  "\<forall>ev\<in>set evs. plays ev \<Longrightarrow>
   nextStartTimeRef (run_messages evs s) = cursor_after (nextStartTimeRef s) evs"
proof (induction evs arbitrary: s)
  case Nil
  then show ?case by simp
next
  case (Cons ev evs)
  obtain ctx message where ev: "ev = (ctx, message)" by (cases ev)
  from Cons.prems ev have "plays (ctx, message)" by simp
  from plays_step [OF this, of s] obtain b where
    b: "audio_outcome ctx message = Inr (Some b)"
    and c: "nextStartTimeRef (snd (onmessage ctx message s)) =
       max (nextStartTimeRef s) (currentTime ctx) + duration b"
    by blast
  from Cons.prems have rest: "\<forall>ev\<in>set evs. plays ev" by simp
  show ?case
    using Cons.IH [OF rest, of "snd (onmessage ctx message s)"] b c
    by (simp add: ev fragment_duration_def)
qed

lemma fragment_duration_nonneg: "0 \<le> fragment_duration ev"
  by (simp add: fragment_duration_def duration_nonneg split: sum.splits option.splits)

lemma cursor_after_lower: "c + sum_list (map fragment_duration evs) \<le> cursor_after c evs"
proof (induction evs arbitrary: c)
  case Nil
  then show ?case by simp
next
  case (Cons ev evs)
  have "c + fragment_duration ev + sum_list (map fragment_duration evs)
      \<le> max c (currentTime (fst ev)) + fragment_duration ev + sum_list (map fragment_duration evs)"
    by simp
  also have "\<dots> \<le> cursor_after (max c (currentTime (fst ev)) + fragment_duration ev) evs"
    by (rule Cons.IH)
  finally show ?case by (simp add: add.assoc)
qed

lemma cursor_after_no_underrun:
  "no_underrun c evs \<Longrightarrow> cursor_after c evs = c + sum_list (map fragment_duration evs)"
  by (induction evs arbitrary: c) (auto simp: max_def add.assoc)

lemma schedule_starts_after: "n \<in> set (schedule c evs) \<Longrightarrow> c \<le> startTime n"
proof (induction evs arbitrary: c)
  case Nil
  then show ?case by simp
next
  case (Cons ev evs)
  obtain ctx message where ev: "ev = (ctx, message)" by (cases ev)
  show ?case
  proof (cases "audio_outcome ctx message")
    case (Inl e)
    with Cons ev show ?thesis by simp
  next
    case (Inr ob)
    show ?thesis
    proof (cases ob)
      case None
      with Cons ev Inr show ?thesis by simp
    next
      case (Some b)
      with Cons.prems ev Inr
      consider "n = \<lparr>startTime = max c (currentTime ctx), buffer = b\<rparr>"
        | "n \<in> set (schedule (max c (currentTime ctx) + duration b) evs)"
        by auto
      then show ?thesis
      proof cases
        case 1
        then show ?thesis by simp
      next
        case 2
        from Cons.IH [OF 2] have "max c (currentTime ctx) + duration b \<le> startTime n" .
        moreover have "0 \<le> duration b" by (rule duration_nonneg)
        ultimately show ?thesis by simp
      qed
    qed
  qed
qed

lemma schedule_non_overlapping: "non_overlapping (schedule c evs)"
proof (induction evs arbitrary: c)
  case Nil
  then show ?case by (simp add: non_overlapping_def)
next
  case (Cons ev evs)
  obtain ctx message where ev: "ev = (ctx, message)" by (cases ev)
  show ?case
  proof (cases "audio_outcome ctx message")
    case (Inl e)
    with Cons ev show ?thesis by simp
  next
    case (Inr ob)
    show ?thesis
    proof (cases ob)
      case None
      with Cons ev Inr show ?thesis by simp
    next
      case (Some b)
      have "\<forall>n\<in>set (schedule (max c (currentTime ctx) + duration b) evs).
              max c (currentTime ctx) + duration b \<le> startTime n"
        using schedule_starts_after by blast
      with Cons.IH [of "max c (currentTime ctx) + duration b"] Some Inr ev
      show ?thesis
        by (simp add: non_overlapping_def end_time_def)
    qed
  qed
qed

lemma schedule_no_underrun:
  "\<forall>ev\<in>set evs. plays ev \<Longrightarrow> no_underrun c evs \<Longrightarrow>
   map startTime (schedule c evs) = prefix_sums c (map fragment_duration evs)"
proof (induction evs arbitrary: c)
  case Nil
  then show ?case by simp
next
  case (Cons ev evs)
  obtain ctx message where ev: "ev = (ctx, message)" by (cases ev)
  from Cons.prems(1) ev obtain b where b: "audio_outcome ctx message = Inr (Some b)"
    by (auto simp: plays_def split: sum.splits option.splits)
  from Cons.prems(2) ev have le: "currentTime ctx \<le> c"
    and rest: "no_underrun (c + duration b) evs"
    using b by (simp_all add: fragment_duration_def)
  from Cons.prems(1) have all: "\<forall>ev\<in>set evs. plays ev" by simp
  show ?case
    using Cons.IH [OF all rest] b le by (simp add: ev fragment_duration_def max_def)
qed

lemma schedule_durations:
  "\<forall>ev\<in>set evs. plays ev \<Longrightarrow>
   map (\<lambda>n. duration (buffer n)) (schedule c evs) = map fragment_duration evs"
proof (induction evs arbitrary: c)
  case Nil
  then show ?case by simp
next
  case (Cons ev evs)
  obtain ctx message where ev: "ev = (ctx, message)" by (cases ev)
  from Cons.prems ev obtain b where b: "audio_outcome ctx message = Inr (Some b)"
    by (auto simp: plays_def split: sum.splits option.splits)
  from Cons.prems have all: "\<forall>ev\<in>set evs. plays ev" by simp
  show ?case
    using Cons.IH [OF all] b by (simp add: ev fragment_duration_def)
qed

lemma non_overlapping_sorted:
  assumes "non_overlapping ns"
  shows "sorted (map startTime ns)"
proof -
  have later: "startTime a \<le> startTime b" if "end_time a \<le> startTime b" for a b :: source_node
    using that duration_nonneg [of "buffer a"] by (simp add: end_time_def)
  from assms have "sorted_wrt (\<lambda>a b. end_time a \<le> startTime b) ns"
    by (simp add: non_overlapping_def)
  then have "sorted_wrt (\<lambda>a b. startTime a \<le> startTime b) ns"
    by (rule sorted_wrt_mono_rel [rotated]) (rule later)
  then show ?thesis by (simp add: sorted_map)
qed

text \<open>
  Claim C1, as the code has it. For every sequence of arrivals that each play a fragment
  and carry no interruption, from any state: the nodes the handler starts are those of
  the schedule, in order, each at the larger of the cursor and the clock reading at its
  arrival and each with its decoded buffer; they do not overlap and their start times
  do not decrease; the cursor ends no earlier than where it began plus the sum of the
  durations; and when no fragment arrives after the audio scheduled before it has run
  out, the cursor ends at exactly that sum past where it began and the start times are
  the running prefix sums of the durations from there.
\<close>

theorem playback_schedule:
  assumes "\<forall>ev\<in>set evs. plays ev"
  shows "effects (run_messages evs s) = effects s @ map Start (schedule (nextStartTimeRef s) evs) \<and>
     map (\<lambda>n. duration (buffer n)) (schedule (nextStartTimeRef s) evs) = map fragment_duration evs \<and>
     non_overlapping (schedule (nextStartTimeRef s) evs) \<and>
     sorted (map startTime (schedule (nextStartTimeRef s) evs)) \<and>
     nextStartTimeRef s + sum_list (map fragment_duration evs) \<le> nextStartTimeRef (run_messages evs s) \<and>
     (no_underrun (nextStartTimeRef s) evs \<longrightarrow>
        nextStartTimeRef (run_messages evs s) = nextStartTimeRef s + sum_list (map fragment_duration evs) \<and>
        map startTime (schedule (nextStartTimeRef s) evs) =
          prefix_sums (nextStartTimeRef s) (map fragment_duration evs))"
proof -
  have eff: "effects (run_messages evs s) = effects s @ map Start (schedule (nextStartTimeRef s) evs)"
    using run_messages_schedule [OF assms] by blast
  have durs: "map (\<lambda>n. duration (buffer n)) (schedule (nextStartTimeRef s) evs) = map fragment_duration evs"
    by (rule schedule_durations [OF assms])
  have apart: "non_overlapping (schedule (nextStartTimeRef s) evs)"
    by (rule schedule_non_overlapping)
  have ordered: "sorted (map startTime (schedule (nextStartTimeRef s) evs))"
    by (rule non_overlapping_sorted [OF apart])
  have cur: "nextStartTimeRef (run_messages evs s) = cursor_after (nextStartTimeRef s) evs"
    by (rule run_messages_cursor [OF assms])
  have lower: "nextStartTimeRef s + sum_list (map fragment_duration evs) \<le> nextStartTimeRef (run_messages evs s)"
    unfolding cur by (rule cursor_after_lower)
  have exact: "no_underrun (nextStartTimeRef s) evs \<longrightarrow>
        nextStartTimeRef (run_messages evs s) = nextStartTimeRef s + sum_list (map fragment_duration evs) \<and>
        map startTime (schedule (nextStartTimeRef s) evs) =
          prefix_sums (nextStartTimeRef s) (map fragment_duration evs)"
    using cur cursor_after_no_underrun schedule_no_underrun [OF assms] by simp
  from eff durs apart ordered lower exact show ?thesis by blast
qed

lemma base64Audio_fragment: "base64Audio (fragment_message b) = Inr (Some b)"
  by (simp add: base64Audio_def fragment_message_def bare_content_def)

lemma atob_AAA: "atob (js ''AAA='') = Inr [0, 0]"
  by (simp add: js_def atob_def ascii_whitespace_def strip_padding_def b64_value_def)

lemma decode_AAA: "decode (js ''AAA='') = Inr [0, 0]"
  by (simp add: decode_def atob_AAA)

lemma decodeAudioData_silent: "decodeAudioData [0, 0] 24000 = Inr silent_frame"
  by (simp add: decodeAudioData_def silent_frame_def)

lemma outcome_one_frame:
  "audio_outcome (running_at t) (fragment_message (js ''AAA='')) = Inr (Some silent_frame)"
proof -
  have "js ''AAA='' \<noteq> []" by (simp add: js_def)
  then show ?thesis
    by (simp add: audio_outcome_def base64Audio_fragment decode_AAA decodeAudioData_silent
          running_at_def)
qed

lemma fragment_not_interruption: "\<not> is_interruption (fragment_message b)"
  by (simp add: is_interruption_def fragment_message_def bare_content_def)

lemma after_audio_fragment: "after_audio (fragment_message b) s = s"
  by (simp add: after_audio_def fragment_message_def bare_content_def accumulate_def
        appended_def)

lemma currentTime_running_at: "currentTime (running_at t) = t"
  by (simp add: running_at_def)

lemma plays_one_frame: "plays (running_at t, fragment_message (js ''AAA=''))"
  by (simp add: plays_def outcome_one_frame fragment_not_interruption)

lemma duration_one_frame:
  "fragment_duration (running_at t, fragment_message (js ''AAA='')) = 1 / 24000"
  by (simp add: fragment_duration_def outcome_one_frame silent_frame_def duration_def)

theorem playback_schedule_witness:
  "nextStartTimeRef (run_messages two_fragments initial_live_chat) = 1 / 12000 \<and>
   map startTime (schedule 0 two_fragments) = [0, 1 / 24000] \<and>
   effects (run_messages two_fragments initial_live_chat) = map Start (schedule 0 two_fragments)"
proof -
  have all: "\<forall>ev\<in>set two_fragments. plays ev"
    by (simp add: two_fragments_def plays_one_frame)
  have fed: "no_underrun (nextStartTimeRef initial_live_chat) two_fragments"
    by (simp add: two_fragments_def initial_live_chat_def duration_one_frame
          currentTime_running_at)
  have durs: "map fragment_duration two_fragments = [1 / 24000, 1 / 24000]"
    by (simp add: two_fragments_def duration_one_frame)
  show ?thesis
    using playback_schedule [OF all, of initial_live_chat] fed durs
    by (simp add: initial_live_chat_def two_fragments_def outcome_one_frame
          currentTime_running_at silent_frame_def duration_def)
qed

theorem late_fragment_starts_at_clock:
  "plays (hd late_fragment) \<and>
   map fragment_duration late_fragment = [1 / 24000] \<and>
   nextStartTimeRef initial_live_chat = 0 \<and>
   nextStartTimeRef (run_messages late_fragment initial_live_chat) = 5 + 1 / 24000 \<and>
   nextStartTimeRef (run_messages late_fragment initial_live_chat)
     \<noteq> sum_list (map fragment_duration late_fragment) \<and>
   effects (run_messages late_fragment initial_live_chat)
     = [Start \<lparr>startTime = 5, buffer = silent_frame\<rparr>]"
  by (simp add: late_fragment_def plays_one_frame duration_one_frame
        onmessage_played [OF outcome_one_frame] after_audio_fragment currentTime_running_at
        initial_live_chat_def silent_frame_def duration_def)

section \<open>Properties of ending the session\<close>

lemma close_session_keeps:
  "pastSessions (close_session s) = pastSessions s"
  "isTranslatingIdx (close_session s) = isTranslatingIdx s"
  "isActive (close_session s) = isActive s"
  "isConnecting (close_session s) = isConnecting s"
  by (simp_all add: close_session_def split: option.splits)

lemma release_audio_in_keeps:
  "pastSessions (release_audio_in s) = pastSessions s"
  "isTranslatingIdx (release_audio_in s) = isTranslatingIdx s"
  "isActive (release_audio_in s) = isActive s"
  "isConnecting (release_audio_in s) = isConnecting s"
  by (simp_all add: release_audio_in_def split: option.splits)

lemma release_audio_out_keeps:
  "pastSessions (release_audio_out s) = pastSessions s"
  "isTranslatingIdx (release_audio_out s) = isTranslatingIdx s"
  "isActive (release_audio_out s) = isActive s"
  "isConnecting (release_audio_out s) = isConnecting s"
  by (simp_all add: release_audio_out_def split: option.splits)

lemma stop_sources_keeps:
  "pastSessions (stop_sources s) = pastSessions s"
  "isTranslatingIdx (stop_sources s) = isTranslatingIdx s"
  "isActive (stop_sources s) = isActive s"
  "isConnecting (stop_sources s) = isConnecting s"
  by (simp_all add: stop_sources_def)

lemma cancel_metering_keeps:
  "pastSessions (cancel_metering s) = pastSessions s"
  "isTranslatingIdx (cancel_metering s) = isTranslatingIdx s"
  "isActive (cancel_metering s) = isActive s"
  "isConnecting (cancel_metering s) = isConnecting s"
  by (simp_all add: cancel_metering_def split: option.splits)

lemmas stopSession_keeps =
  close_session_keeps release_audio_in_keeps release_audio_out_keeps stop_sources_keeps
  cancel_metering_keeps


lemma stopSession_isTranslatingIdx:
  "isTranslatingIdx (stopSession seen new_id now lang s) = isTranslatingIdx s"
  by (simp add: stopSession_def Let_def stopSession_keeps save_session_def)
















section \<open>Properties of the capture conversion\<close>

lemma sint_toInt16:
  assumes "- 1 \<le> x" and "x < 1"
  shows "sint (toInt16 (x * 32768)) = (if 0 \<le> x then \<lfloor>x * 32768\<rfloor> else \<lceil>x * 32768\<rceil>)"
proof -
  let ?k = "if 0 \<le> x * 32768 then \<lfloor>x * 32768\<rfloor> else \<lceil>x * 32768\<rceil>"
  from assms have lo: "- 32768 \<le> x * 32768" and hi: "x * 32768 < 32768" by simp_all
  have "- 32768 \<le> ?k"
    using lo by (auto simp: le_floor_iff le_ceiling_iff intro: order_trans)
  moreover have "?k < 32768"
    using hi by (auto simp: floor_less_iff ceiling_less_iff)
  ultimately have "sint (word_of_int ?k :: 16 word) = ?k"
    by (simp only: sint_sbintrunc') (rule signed_take_bit_int_eq_self, simp_all)
  moreover have "(0 \<le> x * 32768) = (0 \<le> x)"
    by (simp add: zero_le_mult_iff)
  ultimately show ?thesis by (simp add: toInt16_def)
qed

text \<open>
  Claim C8 asks that every sample of \<open>[-1, 1]\<close> becomes the 16-bit value \<open>x * 32768\<close>. The
  sample \<open>1\<close> gives \<open>32768\<close>, which the store into the \<open>Int16Array\<close> wraps to \<open>-32768\<close>:
  the block of that one sample is sent as the bytes \<open>00 80\<close>, base64 \<open>AIA=\<close>.
\<close>

theorem createBlob_full_scale_wraps:
  "map sint (createBlob_int16 [1]) = [- 32768] \<and>
   createBlob [1] = Inr \<lparr>blob_data = js ''AIA='', mimeType = js ''audio/pcm;rate=16000''\<rparr>"
proof -
  have a: "map sint (createBlob_int16 [1]) = [- 32768]"
    by (simp add: createBlob_int16_def toInt16_def)
  have b: "createBlob [1] = Inr \<lparr>blob_data = js ''AIA='', mimeType = js ''audio/pcm;rate=16000''\<rparr>"
    by (simp add: createBlob_def createBlob_int16_def toInt16_def int16_bytes_def encode_def
          btoa_def js_def b64_char_def)
  from a b show ?thesis by blast
qed

section \<open>Properties of the calls to the model\<close>

lemma translateMessage_busy:
  "isTranslatingIdx s \<noteq> None \<Longrightarrow> translateMessage env idx s = Returned s"
  by (simp add: translateMessage_def Let_def)

lemma translateMessage_Awaiting:
  "translateMessage env idx s = Awaiting req s1 \<Longrightarrow>
   isTranslatingIdx s = None \<and> s1 = s\<lparr>isTranslatingIdx := Some idx\<rparr>"
  by (auto simp: translateMessage_def Let_def split: if_splits option.splits)

lemma translateMessage_Returned:
  "translateMessage env idx s = Returned s1 \<Longrightarrow> s1 = s"
  by (auto simp: translateMessage_def Let_def split: if_splits option.splits)

lemma translateMessage_translatable:
  "translatable env idx s \<Longrightarrow>
   \<exists>req. translateMessage env idx s = Awaiting req (s\<lparr>isTranslatingIdx := Some idx\<rparr>)"
  by (auto simp: translateMessage_def translatable_def Let_def split: option.splits)

lemma translateMessage_resume_idle:
  "isTranslatingIdx (translateMessage_resume idx r s) = None"
  by (simp add: translateMessage_resume_def Let_def split: response.splits option.splits)

lemma after_audio_isTranslatingIdx:
  "isTranslatingIdx (after_audio message s) = isTranslatingIdx s"
  by (simp add: after_audio_def accumulate_def on_turnComplete_def on_interrupted_def Let_def
      split: option.splits)

lemma play_fragment_isTranslatingIdx:
  "isTranslatingIdx (snd (play_fragment ctx b s)) = isTranslatingIdx s"
  by (simp add: play_fragment_def Let_def split: sum.splits)

lemma onmessage_isTranslatingIdx:
  "isTranslatingIdx (snd (onmessage ctx message s)) = isTranslatingIdx s"
proof (cases "base64Audio message")
  case (Inl e)
  then show ?thesis by (simp add: onmessage_def)
next
  case (Inr a)
  show ?thesis
  proof (cases "case a of None \<Rightarrow> (None, s)
      | Some base64 \<Rightarrow> if base64 \<noteq> [] \<and> ctx_state ctx \<noteq> Closed
          then play_fragment ctx base64 s else (None, s)")
    case (Pair e s1)
    then have "isTranslatingIdx s1 = isTranslatingIdx s"
      using play_fragment_isTranslatingIdx [of ctx _ s]
      by (auto split: option.splits if_splits) (metis snd_conv)
    with Pair Inr show ?thesis
      by (cases e) (simp_all add: onmessage_def after_audio_isTranslatingIdx)
  qed
qed

lemma chat_step_invariant:
  assumes "at_most_one_pending w"
  shows "at_most_one_pending (chat_step env lang w ev)"
proof (cases ev)
  case (Translate idx)
  show ?thesis
  proof (cases "translateMessage env idx (chat w)")
    case (Returned s)
    then have "s = chat w" by (rule translateMessage_Returned)
    with Returned Translate assms show ?thesis by (simp add: at_most_one_pending_def)
  next
    case (Awaiting req s)
    from translateMessage_Awaiting [OF this]
    have idle: "isTranslatingIdx (chat w) = None"
      and s: "s = (chat w)\<lparr>isTranslatingIdx := Some idx\<rparr>" by simp_all
    from assms idle have "in_flight w = []"
      by (auto simp: at_most_one_pending_def split: list.splits)
    with Awaiting Translate s show ?thesis by (simp add: at_most_one_pending_def)
  qed
next
  case (Settle k r)
  show ?thesis
  proof (cases "k < length (in_flight w)")
    case True
    with assms obtain i where "in_flight w = [i]" "k = 0"
      by (auto simp: at_most_one_pending_def split: list.splits)
    with Settle show ?thesis by (simp add: at_most_one_pending_def)
  next
    case False
    with Settle assms show ?thesis by simp
  qed
next
  case (Server ctx message)
  with assms show ?thesis
    by (auto simp: at_most_one_pending_def onmessage_isTranslatingIdx split: list.splits)
next
  case (Ended source)
  with assms show ?thesis
    by (auto simp: at_most_one_pending_def source_ended_def split: list.splits)
next
  case (Stop_session seen new_id now)
  with assms show ?thesis
    by (auto simp: at_most_one_pending_def stopSession_isTranslatingIdx split: list.splits)
qed

lemma run_chat_invariant:
  "at_most_one_pending w \<Longrightarrow> at_most_one_pending (run_chat env lang evs w)"
  unfolding run_chat_def
  by (induction evs arbitrary: w) (simp_all add: chat_step_invariant)

lemma at_most_one_pending_length: "at_most_one_pending w \<Longrightarrow> length (in_flight w) \<le> 1"
  by (auto simp: at_most_one_pending_def split: list.splits)

text \<open>
  Claim C6. While a translation request is pending, an invocation of \<open>translateMessage\<close>
  returns at once and leaves the state as it was: after an invocation that sent a request,
  a second one on the same index sends none, so two invocations in a row on a
  translatable message leave exactly one request in flight; and along every sequence of
  clicks, request endings, server messages, node endings and session stops from a state
  with nothing in flight, at most one translation request is in flight at any time.
\<close>

theorem translate_once_while_pending:
  "(isTranslatingIdx s \<noteq> None \<longrightarrow> translateMessage env idx s = Returned s) \<and>
   (translateMessage env idx s = Awaiting req s1 \<longrightarrow>
      translateMessage env idx s1 = Returned s1) \<and>
   (translatable env idx (chat w) \<longrightarrow>
      in_flight (run_chat env lang [Translate idx, Translate idx] w) = in_flight w @ [idx]) \<and>
   (in_flight w = [] \<longrightarrow> length (in_flight (run_chat env lang evs w)) \<le> 1)"
proof -
  have busy: "isTranslatingIdx s \<noteq> None \<longrightarrow> translateMessage env idx s = Returned s"
    by (simp add: translateMessage_busy)
  have again: "translateMessage env idx s = Awaiting req s1 \<longrightarrow>
      translateMessage env idx s1 = Returned s1"
  proof
    assume "translateMessage env idx s = Awaiting req s1"
    from translateMessage_Awaiting [OF this] have "isTranslatingIdx s1 \<noteq> None" by simp
    then show "translateMessage env idx s1 = Returned s1" by (rule translateMessage_busy)
  qed
  have twice: "translatable env idx (chat w) \<longrightarrow>
      in_flight (run_chat env lang [Translate idx, Translate idx] w) = in_flight w @ [idx]"
  proof
    assume "translatable env idx (chat w)"
    from translateMessage_translatable [OF this] obtain req where
      first: "translateMessage env idx (chat w) = Awaiting req ((chat w)\<lparr>isTranslatingIdx := Some idx\<rparr>)"
      by blast
    have second: "translateMessage env idx ((chat w)\<lparr>isTranslatingIdx := Some idx\<rparr>)
        = Returned ((chat w)\<lparr>isTranslatingIdx := Some idx\<rparr>)"
      by (rule translateMessage_busy) simp
    show "in_flight (run_chat env lang [Translate idx, Translate idx] w) = in_flight w @ [idx]"
      by (simp add: run_chat_def first second)
  qed
  have never: "in_flight w = [] \<longrightarrow> length (in_flight (run_chat env lang evs w)) \<le> 1"
  proof
    assume "in_flight w = []"
    then have "at_most_one_pending w" by (simp add: at_most_one_pending_def)
    then have "at_most_one_pending (run_chat env lang evs w)" by (rule run_chat_invariant)
    then show "length (in_flight (run_chat env lang evs w)) \<le> 1"
      by (rule at_most_one_pending_length)
  qed
  from busy again twice never show ?thesis by blast
qed

lemma getGeminiKey_keyed: "getGeminiKey keyed = Some (js ''AIzaSy-example-key'')"
  by (simp add: getGeminiKey_def keyed_def key_ok_def truthy_def js_def)

lemma getGeminiKey_no_keys: "getGeminiKey no_keys = None"
  by (simp add: getGeminiKey_def no_keys_def key_ok_def truthy_def)

lemma translatable_greeted: "translatable keyed 0 (chat greeted)"
  by (simp add: translatable_def greeted_def initial_live_chat_def greeting_def truthy_def
        getGeminiKey_keyed)

theorem translate_once_while_pending_witness:
  "translateMessage keyed 0 (chat greeted) =
     Awaiting (Translate_message (js ''AIzaSy-example-key'') Portugues_Brasil (msg_text greeting))
       ((chat greeted)\<lparr>isTranslatingIdx := Some 0\<rparr>) \<and>
   translateMessage keyed 0 ((chat greeted)\<lparr>isTranslatingIdx := Some 0\<rparr>) =
     Returned ((chat greeted)\<lparr>isTranslatingIdx := Some 0\<rparr>) \<and>
   in_flight (run_chat keyed Ingles [Translate 0, Translate 0] greeted) = [0] \<and>
   length (in_flight (run_chat keyed Ingles
     [Translate 0, Translate 0, Settle 0 Rejected, Translate 0] greeted)) \<le> 1"
proof -
  let ?pending = "(chat greeted)\<lparr>isTranslatingIdx := Some 0\<rparr>"
  let ?req = "Translate_message (js ''AIzaSy-example-key'') Portugues_Brasil (msg_text greeting)"
  have first: "translateMessage keyed 0 (chat greeted) = Awaiting ?req ?pending"
    by (simp add: translateMessage_def greeted_def initial_live_chat_def greeting_def truthy_def
          getGeminiKey_keyed)
  have busy: "isTranslatingIdx ?pending \<noteq> None" by simp
  have none: "in_flight greeted = []" by (simp add: greeted_def)
  show ?thesis
    using translate_once_while_pending [of "chat greeted" keyed 0 ?req ?pending greeted Ingles
        "[Translate 0, Translate 0, Settle 0 Rejected, Translate 0]"]
      first translatable_greeted none
    by simp
qed

text \<open>
  Claim C5, as the code has it. When key resolution returns null: the culture fetch sends
  no request, ends with \<open>isLoading\<close> false and the credential-missing message as its
  error; the visual scan sends no request, ends with \<open>isScanning\<close> false and raises the
  alert with that message; the two translations (of a chat message and of a scan result)
  send no request and leave the state as it was, in progress markers cleared and no
  message set.
\<close>

theorem missing_credential_aborts:
  assumes "getGeminiKey env = None"
  shows "fetchCultureData env lang onAction query h =
           Returned (h\<lparr>isLoading := False, hub_error := Some credential_missing,
                       hub_sources := [],
                       hub_effects := hub_effects h @ (if onAction then [On_action] else [])\<rparr>) \<and>
         scanImage env lang onAction base64Img v =
           Returned (v\<lparr>scan_result := None, isScanning := False, scan_translation := None,
                       scan_effects := scan_effects v @ (if onAction then [On_action] else [])
                         @ [Alert credential_missing]\<rparr>) \<and>
         translateMessage env idx s = Returned s \<and>
         translateResult env v = Returned v"
proof -
  have a: "fetchCultureData env lang onAction query h =
           Returned (h\<lparr>isLoading := False, hub_error := Some credential_missing,
                       hub_sources := [],
                       hub_effects := hub_effects h @ (if onAction then [On_action] else [])\<rparr>)"
    using assms by (simp add: fetchCultureData_def Let_def)
  have b: "scanImage env lang onAction base64Img v =
           Returned (v\<lparr>scan_result := None, isScanning := False, scan_translation := None,
                       scan_effects := scan_effects v @ (if onAction then [On_action] else [])
                         @ [Alert credential_missing]\<rparr>)"
    using assms by (simp add: scanImage_def Let_def)
  have c: "translateMessage env idx s = Returned s"
    using assms by (simp add: translateMessage_def Let_def)
  have d: "translateResult env v = Returned v"
    using assms by (simp add: translateResult_def Let_def split: option.splits)
  from a b c d show ?thesis by blast
qed

theorem missing_credential_aborts_witness:
  "fetchCultureData no_keys Ingles True None idle_hub =
     Returned (idle_hub\<lparr>hub_error := Some credential_missing, hub_effects := [On_action]\<rparr>) \<and>
   scanImage no_keys Ingles True (js ''data:image/jpeg;base64,AAAA'') idle_scan =
     Returned (idle_scan\<lparr>scan_result := None,
                 scan_effects := [On_action, Alert credential_missing]\<rparr>) \<and>
   translateMessage no_keys 0 (chat greeted) = Returned (chat greeted) \<and>
   translateResult no_keys idle_scan = Returned idle_scan"
  using missing_credential_aborts [OF getGeminiKey_no_keys, of Ingles True None idle_hub
      "js ''data:image/jpeg;base64,AAAA''" idle_scan 0 "chat greeted"]
  by (simp add: idle_hub_def idle_scan_def)

theorem translation_without_key_is_silent:
  "getGeminiKey no_keys = None \<and>
   translatable keyed 0 (chat greeted) \<and>
   translateMessage no_keys 0 (chat greeted) = Returned (chat greeted) \<and>
   effects (chat greeted) = [] \<and>
   Alert credential_missing \<notin> set (effects (chat greeted))"
proof -
  have "translateMessage no_keys 0 (chat greeted) = Returned (chat greeted)"
    by (simp add: translateMessage_def Let_def getGeminiKey_no_keys greeted_def
          initial_live_chat_def greeting_def truthy_def)
  moreover have "effects (chat greeted) = []"
    by (simp add: greeted_def initial_live_chat_def)
  ultimately show ?thesis
    using getGeminiKey_no_keys translatable_greeted by simp
qed

lemma playExpression_ignores_key_resolution:
  "getGeminiKey short_process_key = None \<and>
   playExpression short_process_key Ingles phrase 0 idle_hub =
     Awaiting (Speak (Some (js ''short'')) Ingles phrase) (idle_hub\<lparr>playingAudioIdx := Some 0\<rparr>)"
  by (simp add: getGeminiKey_def short_process_key_def key_ok_def truthy_def js_def
        playExpression_def idle_hub_def)

end
